theory Spec2Isabelle
  imports Complex_Main
begin

section \<open>Python string primitives used by the lyrics code\<close>

text \<open>
  Strings are lists of 8-bit characters (code points below 256). Times are exact real
  numbers: the source computes them in binary floating point, whose rounding is not part
  of this development, nor are its infinities. The OverflowError of converting an integer
  beyond the float range is part of it.
\<close>

definition is_space :: "char \<Rightarrow> bool" where
  \<comment> \<open>\<open>str.isspace\<close> on one character, for code points below 256\<close>
  "is_space c =
     (let n = (of_char c :: nat)
      in (9 \<le> n \<and> n \<le> 13) \<or> (28 \<le> n \<and> n \<le> 32) \<or> n = 133 \<or> n = 160)"

definition py_strip :: "string \<Rightarrow> string" where
  \<comment> \<open>\<open>s.strip()\<close>\<close>
  "py_strip s = rev (dropWhile is_space (rev (dropWhile is_space s)))"

definition py_find :: "char \<Rightarrow> string \<Rightarrow> int" where
  \<comment> \<open>\<open>s.find(c)\<close>: the first index of \<open>c\<close>, or \<open>-1\<close>\<close>
  "py_find c s = (if c \<in> set s then int (length (takeWhile (\<lambda>x. x \<noteq> c) s)) else - 1)"

definition slice :: "nat \<Rightarrow> nat \<Rightarrow> 'a list \<Rightarrow> 'a list" where
  \<comment> \<open>\<open>s[i:j]\<close> for non-negative \<open>i\<close>, \<open>j\<close>\<close>
  "slice i j s = drop i (take j s)"

fun py_split :: "char \<Rightarrow> string \<Rightarrow> string list" where
  \<comment> \<open>\<open>s.split(c)\<close> for a one-character separator\<close>
  "py_split c [] = [[]]"
| "py_split c (x # xs) =
     (if x = c then [] # py_split c xs
      else (let r = py_split c xs in (x # hd r) # tl r))"

definition nth_opt :: "'a list \<Rightarrow> nat \<Rightarrow> 'a option" where
  \<comment> \<open>\<open>xs[i]\<close>; \<open>None\<close> stands for IndexError\<close>
  "nth_opt xs i = (if i < length xs then Some (xs ! i) else None)"

definition is_digit :: "char \<Rightarrow> bool" where
  "is_digit c = (let n = (of_char c :: nat) in 48 \<le> n \<and> n \<le> 57)"

definition digit_val :: "char \<Rightarrow> nat" where
  "digit_val c = of_char c - 48"

fun py_digits :: "nat \<Rightarrow> string \<Rightarrow> nat option" where
  \<comment> \<open>the rest of a decimal literal after a digit: digits, each optionally preceded by
      one underscore\<close>
  "py_digits acc [] = Some acc"
| "py_digits acc (c # cs) =
     (if is_digit c then py_digits (acc * 10 + digit_val c) cs
      else if c = CHR ''_'' then
        (case cs of
           [] \<Rightarrow> None
         | d # ds \<Rightarrow> if is_digit d then py_digits (acc * 10 + digit_val d) ds else None)
      else None)"

definition py_nat :: "string \<Rightarrow> nat option" where
  "py_nat s =
     (case s of
        [] \<Rightarrow> None
      | c # cs \<Rightarrow> if is_digit c then py_digits (digit_val c) cs else None)"

definition is_int_space :: "char \<Rightarrow> bool" where
  \<comment> \<open>the whitespace \<open>int()\<close> accepts around a literal, for code points below 256: the
      ASCII separators 0x1C-0x1F, which \<open>str.strip\<close> removes, are not among them\<close>
  "is_int_space c =
     (let n = (of_char c :: nat)
      in (9 \<le> n \<and> n \<le> 13) \<or> n = 32 \<or> n = 133 \<or> n = 160)"

definition int_max_str_digits :: nat where
  \<comment> \<open>\<open>sys.get_int_max_str_digits()\<close>, the default of CPython 3.11\<close>
  "int_max_str_digits = 4300"

definition py_int :: "string \<Rightarrow> int option" where
  \<comment> \<open>\<open>int(s)\<close>; \<open>None\<close> stands for ValueError. Surrounding whitespace and one
      leading sign are accepted, and a literal of more than 4300 digits is refused, as
      Python does.\<close>
  "py_int s =
     (case rev (dropWhile is_int_space (rev (dropWhile is_int_space s))) of
        [] \<Rightarrow> None
      | c # cs \<Rightarrow>
          if length (filter is_digit (c # cs)) > int_max_str_digits then None
          else if c = CHR ''-'' then map_option (\<lambda>n. - int n) (py_nat cs)
          else if c = CHR ''+'' then map_option int (py_nat cs)
          else map_option int (py_nat (c # cs)))"

section \<open>The player's lyrics loader (\<open>KaraokePlayer.load_lyrics\<close>)\<close>

record lyric =
  lyric_time :: real
  lyric_text :: string
  lyric_timestamp :: string

definition timestamp_fields :: "string \<Rightarrow> (int \<times> int \<times> int) option" where
  \<comment> \<open>lines 62-66: \<open>minutes\<close>, \<open>seconds\<close>, \<open>centiseconds\<close>; \<open>None\<close> stands for any
      exception, which the bare \<open>except\<close> turns into \<open>continue\<close>\<close>
  "timestamp_fields timestamp =
     (let parts = py_split CHR '':'' timestamp in
      case Option.bind (nth_opt parts 0) py_int of
        None \<Rightarrow> None
      | Some minutes \<Rightarrow>
          (case nth_opt parts 1 of
             None \<Rightarrow> None
           | Some p1 \<Rightarrow>
               (let sec_parts = py_split CHR ''.'' p1 in
                case Option.bind (nth_opt sec_parts 0) py_int of
                  None \<Rightarrow> None
                | Some seconds \<Rightarrow>
                    (case (if length sec_parts > 1
                           then Option.bind (nth_opt sec_parts 1) py_int
                           else Some 0) of
                       None \<Rightarrow> None
                     | Some centiseconds \<Rightarrow> Some (minutes, seconds, centiseconds)))))"

definition float_of_int :: "int \<Rightarrow> real option" where
  \<comment> \<open>the conversion of an \<open>int\<close> operand to \<open>float\<close>; \<open>None\<close> stands for
      OverflowError, raised from \<open>2^1024 - 2^970\<close> on\<close>
  "float_of_int n = (if \<bar>n\<bar> \<ge> 2 ^ 1024 - 2 ^ 970 then None else Some (of_int n))"

definition seconds_total :: "int \<times> int \<times> int \<Rightarrow> real option" where
  \<comment> \<open>\<open>minutes * 60 + seconds + centiseconds / 100.0\<close>; both \<open>int\<close> operands are
      converted to \<open>float\<close>, \<open>None\<close> stands for OverflowError\<close>
  "seconds_total f =
     (case f of (minutes, seconds, centiseconds) \<Rightarrow>
        (case float_of_int centiseconds of
           None \<Rightarrow> None
         | Some cs \<Rightarrow>
             (case float_of_int (minutes * 60 + seconds) of
                None \<Rightarrow> None
              | Some whole \<Rightarrow> Some (whole + cs / 100))))"

definition timestamp_seconds :: "string \<Rightarrow> real option" where
  \<comment> \<open>the \<open>try\<close> block of \<open>load_lyrics\<close>\<close>
  "timestamp_seconds timestamp = Option.bind (timestamp_fields timestamp) seconds_total"

definition parse_line :: "string \<Rightarrow> lyric option" where
  \<comment> \<open>one iteration of the \<open>for line in lines\<close> loop: the entry appended, if any\<close>
  "parse_line raw =
     (let line = py_strip raw in
      if line = [] \<or> CHR '']'' \<notin> set line then None
      else
        (let bracket_pos = nat (py_find CHR '']'' line);
             timestamp = slice 1 bracket_pos line;
             text = py_strip (drop (bracket_pos + 1) line)
         in if text = [] then None
            else (case timestamp_seconds timestamp of
                    None \<Rightarrow> None
                  | Some total_seconds \<Rightarrow>
                      Some \<lparr>lyric_time = total_seconds, lyric_text = text,
                            lyric_timestamp = timestamp\<rparr>)))"

fun universal_newlines :: "string \<Rightarrow> string" where
  \<comment> \<open>text-mode reading: \<open>\r\n\<close> and a lone \<open>\r\<close> arrive as \<open>\n\<close>\<close>
  "universal_newlines [] = []"
| "universal_newlines [c] = (if c = CHR 0x0D then [CHR 0x0A] else [c])"
| "universal_newlines (c # d # cs) =
     (if c = CHR 0x0D then
        (if d = CHR 0x0A then CHR 0x0A # universal_newlines cs
         else CHR 0x0A # universal_newlines (d # cs))
      else c # universal_newlines (d # cs))"

fun split_lines :: "string \<Rightarrow> string list" where
  \<comment> \<open>lines of a text, each keeping its terminating \<open>\n\<close>\<close>
  "split_lines [] = []"
| "split_lines (c # cs) =
     (if c = CHR 0x0A then [c] # split_lines cs
      else (case split_lines cs of
              [] \<Rightarrow> [[c]]
            | l # ls \<Rightarrow> (c # l) # ls))"

definition readlines :: "string \<Rightarrow> string list" where
  \<comment> \<open>\<open>file.readlines()\<close> on a file opened in text mode\<close>
  "readlines content = split_lines (universal_newlines content)"

definition load_lyrics :: "string option \<Rightarrow> bool \<times> lyric list" where
  \<comment> \<open>the return value and the resulting \<open>self.lyrics\<close> of a fresh player;
      \<open>None\<close> is a missing file\<close>
  "load_lyrics file =
     (case file of
        None \<Rightarrow> (False, [])
      | Some content \<Rightarrow>
          (let lyrics = List.map_filter parse_line (readlines content) in
           if lyrics = [] then (False, [])
           else (True, sort_key lyric_time lyrics)))"

section \<open>The playback loop (\<open>KaraokePlayer.play\<close>)\<close>

text \<open>
  The loop reads two things from outside on every pass: whether the mixer is still busy
  and the wall clock. A run is driven by the list of these readings, one per pass; a
  reading with \<open>busy = False\<close> ends the loop before the clock is looked at.
\<close>

record reading =
  busy :: bool
  clock :: real

record loop_state =
  displayed_lines :: "string list"
  current_line_index :: nat
  last_update_time :: real

text \<open>What one screen update prints: dimmed earlier lines, the current line, the preview
  of the next line, the progress value and the line counter.\<close>

record frame =
  frame_time :: real
  prev_lines :: "string list"
  current_lyric_text :: "string option"
  highlighted :: bool
  coming_up :: "(real \<times> string) option"
  progress :: real
  lines_shown :: nat
  lines_total :: nat

datatype py_error = ZeroDivisionError | IndexError

datatype emission = Skip | Emit frame | Raise py_error

definition render :: "lyric list \<Rightarrow> real \<Rightarrow> bool \<Rightarrow> loop_state \<Rightarrow> py_error + frame" where
  \<comment> \<open>the body of \<open>if should_update or (current_time - last_update_time) >= 0.5\<close>
      after the assignment to \<open>last_update_time\<close>\<close>
  "render lyrics current_time should_update s =
     (let dl = displayed_lines s;
          n = int (length dl);
          k = (if should_update then 1 else 0);
          num_prev = (if should_update then min 3 (n - 1) else min 3 n);
          start_idx = max 0 (n - num_prev - k);
          prev = (if dl = [] then [] else slice (nat start_idx) (nat (n - k)) dl);
          cur = (if dl = [] then None else Some (last dl));
          nxt = (if current_line_index s < length lyrics then
                   (let next_line = lyrics ! current_line_index s;
                        time_until_next = lyric_time next_line - current_time
                    in if time_until_next > 0 \<and> time_until_next < 10
                       then Some (time_until_next, lyric_text next_line) else None)
                 else None)
      in if lyrics = [] then Inl IndexError
         else (let total_duration = lyric_time (last lyrics) + 10 in
               if total_duration = 0 then Inl ZeroDivisionError
               else Inr \<lparr>frame_time = current_time, prev_lines = prev,
                         current_lyric_text = cur, highlighted = should_update,
                         coming_up = nxt,
                         progress = min (current_time / total_duration) 1,
                         lines_shown = length dl, lines_total = length lyrics\<rparr>))"

definition should_advance :: "lyric list \<Rightarrow> real \<Rightarrow> loop_state \<Rightarrow> bool" where
  \<comment> \<open>the value \<open>should_update\<close> gets on a pass\<close>
  "should_advance lyrics current_time s =
     (current_line_index s < length lyrics
      \<and> current_time \<ge> lyric_time (lyrics ! current_line_index s))"

definition advance :: "lyric list \<Rightarrow> real \<Rightarrow> loop_state \<Rightarrow> loop_state" where
  \<comment> \<open>lines 158-166: at most the one line under the cursor is consumed\<close>
  "advance lyrics current_time s =
     (if should_advance lyrics current_time s then
        s\<lparr>current_line_index := current_line_index s + 1,
          displayed_lines :=
            displayed_lines s @ [lyric_text (lyrics ! current_line_index s)]\<rparr>
      else s)"

definition tick :: "lyric list \<Rightarrow> real \<Rightarrow> loop_state \<Rightarrow> loop_state \<times> emission" where
  \<comment> \<open>one pass of the \<open>while True\<close> loop with the mixer busy, at playback time
      \<open>current_time\<close>\<close>
  "tick lyrics current_time s =
     (let should_update = should_advance lyrics current_time s;
          s1 = advance lyrics current_time s
      in if should_update \<or> current_time - last_update_time s1 \<ge> 0.5 then
           (let s2 = s1\<lparr>last_update_time := current_time\<rparr> in
            case render lyrics current_time should_update s2 of
              Inl e \<Rightarrow> (s2, Raise e)
            | Inr f \<Rightarrow> (s2, Emit f))
         else (s1, Skip))"

datatype phase = NotStarted | Running | Finished | Crashed py_error

record session =
  phase :: phase
  audio_played :: bool
  frames :: "frame list"
  cursor :: loop_state

definition initial_state :: loop_state where
  "initial_state = \<lparr>displayed_lines = [], current_line_index = 0, last_update_time = 0\<rparr>"

fun karaoke_loop ::
  "lyric list \<Rightarrow> real \<Rightarrow> reading list \<Rightarrow> loop_state \<Rightarrow> phase \<times> frame list \<times> loop_state" where
  \<comment> \<open>the \<open>while True\<close> loop; \<open>Running\<close> when the readings end with the mixer still busy\<close>
  "karaoke_loop lyrics start_time [] s = (Running, [], s)"
| "karaoke_loop lyrics start_time (r # rs) s =
     (if \<not> busy r then (Finished, [], s)
      else (let current_time = clock r - start_time in
            case tick lyrics current_time s of
              (s', Raise e) \<Rightarrow> (Crashed e, [], s')
            | (s', Emit f) \<Rightarrow>
                (case karaoke_loop lyrics start_time rs s' of
                   (ph, fs, sf) \<Rightarrow> (ph, f # fs, sf))
            | (s', Skip) \<Rightarrow> karaoke_loop lyrics start_time rs s'))"

fun audio_only_loop :: "reading list \<Rightarrow> phase" where
  \<comment> \<open>\<open>while pygame.mixer.music.get_busy(): time.sleep(0.1)\<close>\<close>
  "audio_only_loop [] = Running"
| "audio_only_loop (r # rs) = (if busy r then audio_only_loop rs else Finished)"

definition play_universal :: "lyric list \<Rightarrow> real \<Rightarrow> reading list \<Rightarrow> session" where
  \<comment> \<open>\<open>play\<close> of support/karaoke\_universal.py: without lyrics it returns before the
      audio is started\<close>
  "play_universal lyrics start_time rs =
     (if lyrics = [] then
        \<lparr>phase = NotStarted, audio_played = False, frames = [], cursor = initial_state\<rparr>
      else (case karaoke_loop lyrics start_time rs initial_state of
              (ph, fs, sf) \<Rightarrow>
                \<lparr>phase = ph, audio_played = True, frames = fs, cursor = sf\<rparr>))"

definition play :: "lyric list \<Rightarrow> real \<Rightarrow> reading list \<Rightarrow> session" where
  \<comment> \<open>\<open>play\<close> of main.py: without lyrics the audio plays and nothing is rendered\<close>
  "play lyrics start_time rs =
     (if lyrics = [] then
        \<lparr>phase = audio_only_loop rs, audio_played = True, frames = [],
          cursor = initial_state\<rparr>
      else (case karaoke_loop lyrics start_time rs initial_state of
              (ph, fs, sf) \<Rightarrow>
                \<lparr>phase = ph, audio_played = True, frames = fs, cursor = sf\<rparr>))"

section \<open>The timing adjuster (support/adjust\_timing.py)\<close>

definition parse_fields :: "string \<Rightarrow> (int \<times> int \<times> int) option" where
  \<comment> \<open>lines 20-29 of \<open>parse_timestamp\<close>\<close>
  "parse_fields timestamp =
     (let parts = py_split CHR '':'' timestamp in
      case Option.bind (nth_opt parts 0) py_int of
        None \<Rightarrow> None
      | Some minutes \<Rightarrow>
          (case nth_opt parts 1 of
             None \<Rightarrow> None
           | Some p1 \<Rightarrow>
               (if CHR ''.'' \<in> set p1 then
                  (let sec_parts = py_split CHR ''.'' p1 in
                   case Option.bind (nth_opt sec_parts 0) py_int of
                     None \<Rightarrow> None
                   | Some seconds \<Rightarrow>
                       map_option (\<lambda>centiseconds. (minutes, seconds, centiseconds))
                         (Option.bind (nth_opt sec_parts 1) py_int))
                else map_option (\<lambda>seconds. (minutes, seconds, 0)) (py_int p1))))"

definition parse_timestamp :: "string \<Rightarrow> real option" where
  \<comment> \<open>\<open>None\<close> is the \<open>return None\<close> of the \<open>except\<close> branch\<close>
  "parse_timestamp timestamp = Option.bind (parse_fields timestamp) seconds_total"

definition py_trunc :: "real \<Rightarrow> int" where
  \<comment> \<open>\<open>int(x)\<close>: rounding towards zero\<close>
  "py_trunc x = (if x < 0 then \<lceil>x\<rceil> else \<lfloor>x\<rfloor>)"

definition py_floordiv :: "real \<Rightarrow> real \<Rightarrow> real" where
  \<comment> \<open>\<open>x // y\<close>\<close>
  "py_floordiv x y = of_int \<lfloor>x / y\<rfloor>"

definition py_mod :: "real \<Rightarrow> real \<Rightarrow> real" where
  \<comment> \<open>\<open>x % y\<close>\<close>
  "py_mod x y = x - y * of_int \<lfloor>x / y\<rfloor>"

definition digit_chr :: "nat \<Rightarrow> char" where
  "digit_chr d = char_of (48 + d)"

fun decimal :: "nat \<Rightarrow> string" where
  "decimal n = (if n < 10 then [digit_chr n] else decimal (n div 10) @ [digit_chr (n mod 10)])"

declare decimal.simps [simp del]

definition format_02d :: "int \<Rightarrow> string" where
  \<comment> \<open>the format specification \<open>:02d\<close>: zeros fill up to width 2, the sign counts\<close>
  "format_02d i =
     (if i < 0 then CHR ''-'' # decimal (nat (- i))
      else (let ds = decimal (nat i) in if length ds < 2 then CHR ''0'' # ds else ds))"

definition format_timestamp :: "real \<Rightarrow> string" where
  "format_timestamp seconds0 =
     (let seconds = (if seconds0 < 0 then 0 else seconds0);
          minutes = py_trunc (py_floordiv seconds 60);
          remaining_seconds = py_mod seconds 60;
          secs = py_trunc remaining_seconds;
          centiseconds = py_trunc ((remaining_seconds - of_int secs) * 100)
      in format_02d minutes @ '':'' @ format_02d secs @ ''.'' @ format_02d centiseconds)"

definition rstrip_newlines :: "string \<Rightarrow> string" where
  \<comment> \<open>\<open>line.rstrip('\n\r')\<close>\<close>
  "rstrip_newlines s = rev (dropWhile (\<lambda>c. c = CHR 0x0A \<or> c = CHR 0x0D) (rev s))"

definition timestamp_and_text :: "string \<Rightarrow> (real \<times> string) option" where
  \<comment> \<open>lines 85-97: the time and the text of a line the adjuster takes as timed\<close>
  "timestamp_and_text line =
     (if line \<noteq> [] \<and> CHR ''['' \<in> set line \<and> CHR '']'' \<in> set line then
        (let bracket_start = py_find CHR ''['' line;
             bracket_end = py_find CHR '']'' line
         in if bracket_start \<ge> 0 \<and> bracket_end > bracket_start then
              (let timestamp = slice (nat (bracket_start + 1)) (nat bracket_end) line;
                   text = drop (nat (bracket_end + 1)) line
               in map_option (\<lambda>time_seconds. (time_seconds, text))
                    (parse_timestamp timestamp))
            else None)
      else None)"

definition adjust_line :: "real \<Rightarrow> string \<Rightarrow> string" where
  \<comment> \<open>lines 98-116: the line appended to \<open>adjusted_lines\<close>\<close>
  "adjust_line offset_seconds line =
     (case timestamp_and_text line of
        Some (time_seconds, text) \<Rightarrow>
          (let new_time = time_seconds + offset_seconds;
               new_timestamp = format_timestamp new_time
           in ''['' @ new_timestamp @ '']'' @ text)
      | None \<Rightarrow> line)"

fun join_lines :: "string list \<Rightarrow> string" where
  \<comment> \<open>\<open>'\n'.join(lines)\<close>\<close>
  "join_lines [] = []"
| "join_lines [l] = l"
| "join_lines (l # m # ls) = l @ CHR 0x0A # join_lines (m # ls)"

definition file_lines :: "string \<Rightarrow> string list" where
  \<comment> \<open>the lines of the input file after \<open>rstrip('\n\r')\<close>\<close>
  "file_lines content = map rstrip_newlines (readlines content)"

definition adjust_lrc_timing :: "string option \<Rightarrow> real \<Rightarrow> string option" where
  \<comment> \<open>the text written to the output file; \<open>None\<close> is a missing input file, for
      which nothing is written\<close>
  "adjust_lrc_timing input offset_seconds =
     (case input of
        None \<Rightarrow> None
      | Some content \<Rightarrow>
          Some (join_lines (map (adjust_line offset_seconds) (file_lines content))))"

definition lrc_pairs :: "string option \<Rightarrow> (real \<times> string) list" where
  \<comment> \<open>the (time, text) pairs of a file, read the way the adjuster reads it\<close>
  "lrc_pairs input =
     (case input of
        None \<Rightarrow> []
      | Some content \<Rightarrow> List.map_filter timestamp_and_text (file_lines content))"

section \<open>Vocabulary of the statements\<close>


definition decimal_value :: "string \<Rightarrow> nat" where
  \<comment> \<open>the number a string of decimal digits denotes\<close>
  "decimal_value ds = foldl (\<lambda>a c. a * 10 + digit_val c) 0 ds"


definition last_n :: "nat \<Rightarrow> 'a list \<Rightarrow> 'a list" where
  \<comment> \<open>the \<open>n\<close> most recent entries of a history, oldest first\<close>
  "last_n n xs = drop (length xs - n) xs"

definition playing :: "real \<Rightarrow> reading" where
  "playing t = \<lparr>busy = True, clock = t\<rparr>"

definition stopped :: "real \<Rightarrow> reading" where
  "stopped t = \<lparr>busy = False, clock = t\<rparr>"

definition abc_text :: string where
  "abc_text = ''[00:00.00]a\<newline>[00:01.00]b\<newline>[00:03.00]c''"

definition abc_lyrics :: "lyric list" where
  "abc_lyrics =
     [\<lparr>lyric_time = 0, lyric_text = ''a'', lyric_timestamp = ''00:00.00''\<rparr>,
      \<lparr>lyric_time = 1, lyric_text = ''b'', lyric_timestamp = ''00:01.00''\<rparr>,
      \<lparr>lyric_time = 3, lyric_text = ''c'', lyric_timestamp = ''00:03.00''\<rparr>]"

section \<open>Auxiliary facts\<close>

lemma start_idx_refresh: "nat (max 0 (int n - min 3 (int n) - 0)) = n - 3"
  by arith

lemma start_idx_advance: "nat (max 0 (int n - min 3 (int n - 1) - 1)) = (n - 1) - 3"
  by arith

lemma render_Inr:
  assumes "render lyrics t su s = Inr f"
  shows "f = \<lparr>frame_time = t,
      prev_lines = (if displayed_lines s = [] then []
         else slice (nat (max 0 (int (length (displayed_lines s))
                   - (if su then min 3 (int (length (displayed_lines s)) - 1)
                      else min 3 (int (length (displayed_lines s))))
                   - (if su then 1 else 0))))
            (nat (int (length (displayed_lines s)) - (if su then 1 else 0)))
            (displayed_lines s)),
      current_lyric_text
        = (if displayed_lines s = [] then None else Some (last (displayed_lines s))),
      highlighted = su,
      coming_up = (if current_line_index s < length lyrics then
                   (if lyric_time (lyrics ! current_line_index s) - t > 0
                       \<and> lyric_time (lyrics ! current_line_index s) - t < 10
                    then Some (lyric_time (lyrics ! current_line_index s) - t,
                               lyric_text (lyrics ! current_line_index s))
                    else None)
                 else None),
      progress = min (t / (lyric_time (last lyrics) + 10)) 1,
      lines_shown = length (displayed_lines s), lines_total = length lyrics\<rparr>"
proof (cases "lyrics = []")
  case True
  with assms show ?thesis by (simp add: render_def Let_def)
next
  case False
  show ?thesis
  proof (cases "lyric_time (last lyrics) + 10 = 0")
    case True
    with assms \<open>lyrics \<noteq> []\<close> show ?thesis by (simp add: render_def Let_def)
  next
    case False
    with assms \<open>lyrics \<noteq> []\<close> show ?thesis
      by (simp add: render_def Let_def cong: if_cong)
  qed
qed

lemma render_prev_lines:
  assumes "render lyrics t su s = Inr f"
  shows "prev_lines f = (if su then last_n 3 (butlast (displayed_lines s))
                         else last_n 3 (displayed_lines s))"
proof -
  have a: "nat (int (length (displayed_lines s)) - 1) = length (displayed_lines s) - 1"
    by simp
  show ?thesis
    unfolding render_Inr [OF assms]
    using start_idx_refresh [of "length (displayed_lines s)"]
      start_idx_advance [of "length (displayed_lines s)"]
    by (simp add: last_n_def slice_def butlast_conv_take a)
qed

lemma render_fields:
  assumes "render lyrics t su s = Inr f"
  shows "highlighted f = su"
    and "current_lyric_text f
          = (if displayed_lines s = [] then None else Some (last (displayed_lines s)))"
    and "lines_shown f = length (displayed_lines s)"
    and "lines_total f = length lyrics"
    and "frame_time f = t"
  unfolding render_Inr [OF assms] by simp_all

lemma tick_emit:
  assumes "tick lyrics t s = (s', Emit f)"
  shows "s' = (advance lyrics t s)\<lparr>last_update_time := t\<rparr>"
    and "render lyrics t (should_advance lyrics t s) s' = Inr f"
proof -
  show "render lyrics t (should_advance lyrics t s) s' = Inr f"
    using assms
    by (cases "should_advance lyrics t s
               \<or> t - last_update_time (advance lyrics t s) \<ge> 0.5";
        cases "render lyrics t (should_advance lyrics t s)
                 ((advance lyrics t s)\<lparr>last_update_time := t\<rparr>)")
       (auto simp: tick_def Let_def)
  show "s' = (advance lyrics t s)\<lparr>last_update_time := t\<rparr>"
    using assms
    by (cases "should_advance lyrics t s
               \<or> t - last_update_time (advance lyrics t s) \<ge> 0.5";
        cases "render lyrics t (should_advance lyrics t s)
                 ((advance lyrics t s)\<lparr>last_update_time := t\<rparr>)")
       (auto simp: tick_def Let_def)
qed

lemma last_n_le: "length (last_n n xs) \<le> n"
  by (simp add: last_n_def)

lemma decimal_0: "decimal 0 = ''0''"
  by code_simp

lemma format_02d_0: "format_02d 0 = ''00''"
  by (simp add: format_02d_def decimal_0)

subsection \<open>Splitting and stripping\<close>

lemma py_split_nonempty: "py_split c s \<noteq> []"
  by (induction s) (auto simp: Let_def)

lemma py_split_absent: "c \<notin> set s \<Longrightarrow> py_split c s = [s]"
  by (induction s) (auto simp: Let_def)

lemma py_split_present: "c \<in> set s \<Longrightarrow> length (py_split c s) > 1"
proof (induction s)
  case Nil
  then show ?case by simp
next
  case (Cons x xs)
  show ?case
  proof (cases "x = c")
    case True
    then show ?thesis using py_split_nonempty [of c xs] by (cases "py_split c xs") auto
  next
    case False
    with Cons have "length (py_split c xs) > 1" by simp
    then show ?thesis using False by (cases "py_split c xs") (auto simp: Let_def)
  qed
qed

lemma py_split_append:
  "c \<notin> set a \<Longrightarrow> py_split c (a @ c # b) = a # py_split c b"
  by (induction a) (auto simp: Let_def)

lemma py_split_chars: "p \<in> set (py_split c s) \<Longrightarrow> set p \<subseteq> set s"
proof (induction s arbitrary: p)
  case Nil
  then show ?case by simp
next
  case (Cons x xs)
  show ?case
  proof (cases "x = c")
    case True
    with Cons show ?thesis by auto
  next
    case False
    obtain h t where r: "py_split c xs = h # t"
      using py_split_nonempty [of c xs] by (cases "py_split c xs") auto
    with Cons.prems False have "p = x # h \<or> p \<in> set t" by (auto simp: Let_def)
    then show ?thesis
    proof
      assume "p = x # h"
      moreover have "set h \<subseteq> set xs" using Cons.IH [of h] r by simp
      ultimately show ?thesis by auto
    next
      assume "p \<in> set t"
      then have "set p \<subseteq> set xs" using Cons.IH [of p] r by simp
      then show ?thesis by auto
    qed
  qed
qed

lemma nth_opt_mem: "nth_opt xs i = Some x \<Longrightarrow> x \<in> set xs"
  by (auto simp: nth_opt_def split: if_splits)

lemma py_strip_chars: "set (py_strip s) \<subseteq> set s"
proof -
  have "set (dropWhile is_space (rev (dropWhile is_space s))) \<subseteq> set (rev (dropWhile is_space s))"
    by (meson set_dropWhileD subsetI)
  moreover have "set (dropWhile is_space s) \<subseteq> set s"
    by (meson set_dropWhileD subsetI)
  ultimately show ?thesis by (auto simp: py_strip_def)
qed

lemma int_strip_chars:
  "set (rev (dropWhile is_int_space (rev (dropWhile is_int_space s)))) \<subseteq> set s"
proof -
  have "set (dropWhile is_int_space (rev (dropWhile is_int_space s)))
          \<subseteq> set (rev (dropWhile is_int_space s))"
    by (meson set_dropWhileD subsetI)
  moreover have "set (dropWhile is_int_space s) \<subseteq> set s"
    by (meson set_dropWhileD subsetI)
  ultimately show ?thesis by auto
qed

lemma py_int_nonneg:
  assumes "py_int s = Some n" and "CHR ''-'' \<notin> set s"
  shows "0 \<le> n"
proof (cases "rev (dropWhile is_int_space (rev (dropWhile is_int_space s)))")
  case Nil
  with assms show ?thesis by (simp add: py_int_def)
next
  case (Cons c cs)
  then have "c \<in> set s" using int_strip_chars [of s] by auto
  with assms(2) have "c \<noteq> CHR ''-''" by auto
  with assms(1) Cons show ?thesis by (auto simp: py_int_def split: if_splits)
qed

lemma timestamp_fields_nonneg:
  assumes "timestamp_fields ts = Some (m, s, c)" and "CHR ''-'' \<notin> set ts"
  shows "0 \<le> m \<and> 0 \<le> s \<and> 0 \<le> c"
proof -
  let ?parts = "py_split CHR '':'' ts"
  from assms(1) obtain p0 where p0: "nth_opt ?parts 0 = Some p0" "py_int p0 = Some m"
    by (auto simp: timestamp_fields_def Let_def split: option.splits Option.bind_splits)
  from assms(1) obtain p1 where p1: "nth_opt ?parts 1 = Some p1"
    by (auto simp: timestamp_fields_def Let_def split: option.splits Option.bind_splits)
  let ?sp = "py_split CHR ''.'' p1"
  from assms(1) p1 obtain q0 where q0: "nth_opt ?sp 0 = Some q0" "py_int q0 = Some s"
    by (auto simp: timestamp_fields_def Let_def split: option.splits Option.bind_splits)
  have cs: "c = 0 \<or> (\<exists>q1. nth_opt ?sp 1 = Some q1 \<and> py_int q1 = Some c)"
    using assms(1) p1
    by (auto simp: timestamp_fields_def Let_def
        split: option.splits Option.bind_splits if_splits)
  have in0: "set p0 \<subseteq> set ts" using py_split_chars nth_opt_mem [OF p0(1)] by blast
  have in1: "set p1 \<subseteq> set ts" using py_split_chars nth_opt_mem [OF p1] by blast
  have inq0: "set q0 \<subseteq> set ts"
    using py_split_chars nth_opt_mem [OF q0(1)] in1 by blast
  have m: "0 \<le> m" using py_int_nonneg [OF p0(2)] in0 assms(2) by blast
  have s: "0 \<le> s" using py_int_nonneg [OF q0(2)] inq0 assms(2) by blast
  have c: "0 \<le> c"
    using cs
  proof
    assume "c = 0"
    then show ?thesis by simp
  next
    assume "\<exists>q1. nth_opt ?sp 1 = Some q1 \<and> py_int q1 = Some c"
    then obtain q1 where q1: "nth_opt ?sp 1 = Some q1" "py_int q1 = Some c" by blast
    have "set q1 \<subseteq> set ts" using py_split_chars nth_opt_mem [OF q1(1)] in1 by blast
    then show ?thesis using py_int_nonneg [OF q1(2)] assms(2) by blast
  qed
  from m s c show ?thesis by simp
qed

lemma seconds_total_Some:
  assumes "seconds_total (m, s, c) = Some t"
  shows "t = of_int (m * 60 + s) + of_int c / 100"
  using assms
  by (auto simp: seconds_total_def float_of_int_def split: option.splits if_splits)

lemma seconds_total_nonneg:
  "seconds_total (m, s, c) = Some t \<Longrightarrow> 0 \<le> m \<Longrightarrow> 0 \<le> s \<Longrightarrow> 0 \<le> c \<Longrightarrow> 0 \<le> t"
  using seconds_total_Some [of m s c t] by simp

lemma parse_fields_eq: "parse_fields ts = timestamp_fields ts"
proof -
  have a: "(if CHR ''.'' \<in> set p1 then
              (case Option.bind (nth_opt (py_split CHR ''.'' p1) 0) py_int of
                 None \<Rightarrow> None
               | Some seconds \<Rightarrow>
                   map_option (\<lambda>centiseconds. (m, seconds, centiseconds))
                     (Option.bind (nth_opt (py_split CHR ''.'' p1) 1) py_int))
            else map_option (\<lambda>seconds. (m, seconds, 0)) (py_int p1))
         = (case Option.bind (nth_opt (py_split CHR ''.'' p1) 0) py_int of
              None \<Rightarrow> None
            | Some seconds \<Rightarrow>
                (case (if length (py_split CHR ''.'' p1) > 1
                       then Option.bind (nth_opt (py_split CHR ''.'' p1) 1) py_int
                       else Some 0) of
                   None \<Rightarrow> None
                 | Some centiseconds \<Rightarrow> Some (m, seconds, centiseconds)))"
    for p1 :: string and m :: int
  proof (cases "CHR ''.'' \<in> set p1")
    case True
    then show ?thesis using py_split_present [OF True]
      by (auto split: option.splits)
  next
    case False
    then show ?thesis
      by (auto simp: py_split_absent nth_opt_def split: option.splits)
  qed
  show ?thesis
    unfolding parse_fields_def timestamp_fields_def Let_def a ..
qed

lemma parse_timestamp_eq: "parse_timestamp ts = timestamp_seconds ts"
  by (simp add: parse_timestamp_def timestamp_seconds_def parse_fields_eq)

lemma parse_line_Some:
  assumes "parse_line raw = Some l"
  shows "CHR '']'' \<in> set (py_strip raw)"
    and "lyric_timestamp l
          = slice 1 (length (takeWhile (\<lambda>x. x \<noteq> CHR '']'') (py_strip raw))) (py_strip raw)"
    and "lyric_text l
          = py_strip (drop (length (takeWhile (\<lambda>x. x \<noteq> CHR '']'') (py_strip raw)) + 1)
                           (py_strip raw))"
    and "lyric_text l \<noteq> []"
    and "timestamp_seconds (lyric_timestamp l) = Some (lyric_time l)"
proof -
  show a: "CHR '']'' \<in> set (py_strip raw)"
    using assms by (cases "CHR '']'' \<in> set (py_strip raw)") (auto simp: parse_line_def Let_def)
  have ne: "py_strip raw \<noteq> []" using a by auto
  let ?p = "length (takeWhile (\<lambda>x. x \<noteq> CHR '']'') (py_strip raw))"
  let ?text = "py_strip (drop (?p + 1) (py_strip raw))"
  have t: "?text \<noteq> []"
    using assms a ne by (cases "?text = []") (auto simp: parse_line_def Let_def py_find_def)
  from assms a ne t obtain ts where
    ts: "timestamp_seconds (slice 1 ?p (py_strip raw)) = Some ts"
    and l: "l = \<lparr>lyric_time = ts, lyric_text = ?text,
                 lyric_timestamp = slice 1 ?p (py_strip raw)\<rparr>"
    by (cases "timestamp_seconds (slice 1 ?p (py_strip raw))")
       (auto simp: parse_line_def Let_def py_find_def)
  show "lyric_timestamp l = slice 1 ?p (py_strip raw)" using l by simp
  show "lyric_text l = ?text" using l by simp
  show "lyric_text l \<noteq> []" using l t by simp
  show "timestamp_seconds (lyric_timestamp l) = Some (lyric_time l)" using l ts by simp
qed

subsection \<open>Digit strings\<close>

lemma digit_range:
  assumes "is_digit c"
  shows "48 \<le> (of_char c :: nat)" "(of_char c :: nat) \<le> 57"
  using assms by (simp_all add: is_digit_def Let_def)

lemma digit_not_mark:
  assumes "is_digit c"
  shows "c \<noteq> CHR ''-''" "c \<noteq> CHR ''+''" "c \<noteq> CHR '':''" "c \<noteq> CHR ''.''"
    "c \<noteq> CHR ''[''" "c \<noteq> CHR '']''" "c \<noteq> CHR ''_''" "c \<noteq> CHR 0x0A" "c \<noteq> CHR 0x0D"
proof -
  note r = digit_range [OF assms]
  show "c \<noteq> CHR ''-''" using r by auto
  show "c \<noteq> CHR ''+''" using r by auto
  show "c \<noteq> CHR '':''" using r by auto
  show "c \<noteq> CHR ''.''" using r by auto
  show "c \<noteq> CHR ''[''" using r by auto
  show "c \<noteq> CHR '']''" using r by auto
  show "c \<noteq> CHR ''_''" using r by auto
  show "c \<noteq> CHR 0x0A" using r by auto
  show "c \<noteq> CHR 0x0D" using r by auto
qed

lemma digit_not_space:
  assumes "is_digit c"
  shows "\<not> is_int_space c" "\<not> is_space c"
  using digit_range [OF assms] by (simp_all add: is_int_space_def is_space_def Let_def)

lemma digits_no_mark:
  assumes "list_all is_digit ds"
  shows "CHR '':'' \<notin> set ds" "CHR ''.'' \<notin> set ds" "CHR ''['' \<notin> set ds"
    "CHR '']'' \<notin> set ds" "CHR ''-'' \<notin> set ds" "CHR 0x0A \<notin> set ds" "CHR 0x0D \<notin> set ds"
proof -
  have d: "is_digit c" if "c \<in> set ds" for c
    using assms that by (simp add: list_all_iff)
  show "CHR '':'' \<notin> set ds" using d digit_not_mark(3) by blast
  show "CHR ''.'' \<notin> set ds" using d digit_not_mark(4) by blast
  show "CHR ''['' \<notin> set ds" using d digit_not_mark(5) by blast
  show "CHR '']'' \<notin> set ds" using d digit_not_mark(6) by blast
  show "CHR ''-'' \<notin> set ds" using d digit_not_mark(1) by blast
  show "CHR 0x0A \<notin> set ds" using d digit_not_mark(8) by blast
  show "CHR 0x0D \<notin> set ds" using d digit_not_mark(9) by blast
qed

lemma py_digits_all:
  "list_all is_digit ds \<Longrightarrow>
   py_digits acc ds = Some (foldl (\<lambda>a c. a * 10 + digit_val c) acc ds)"
proof (induction ds arbitrary: acc)
  case Nil
  show ?case by simp
next
  case (Cons d ds)
  then have d: "is_digit d" and r: "list_all is_digit ds" by simp_all
  show ?case using d Cons.IH [OF r] by simp
qed

lemma py_nat_digits:
  assumes "ds \<noteq> []" and "list_all is_digit ds"
  shows "py_nat ds = Some (decimal_value ds)"
proof -
  obtain d rest where ds: "ds = d # rest" using assms(1) by (cases ds) auto
  with assms(2) have d: "is_digit d" and r: "list_all is_digit rest" by auto
  show ?thesis
    unfolding ds py_nat_def decimal_value_def using d py_digits_all [OF r] by simp
qed

lemma dropWhile_unchanged: "xs \<noteq> [] \<Longrightarrow> \<not> P (hd xs) \<Longrightarrow> dropWhile P xs = xs"
  by (cases xs) auto

lemma strip_unchanged:
  assumes "xs \<noteq> []" and "\<not> P (hd xs)" and "\<not> P (last xs)"
  shows "rev (dropWhile P (rev (dropWhile P xs))) = xs"
proof -
  have a: "dropWhile P xs = xs"
    using dropWhile_unchanged [of xs P] assms(1,2) by simp
  have "rev xs \<noteq> []" using assms(1) by simp
  moreover have "\<not> P (hd (rev xs))" using assms(1,3) by (simp add: hd_rev)
  ultimately have b: "dropWhile P (rev xs) = rev xs"
    using dropWhile_unchanged [of "rev xs" P] by simp
  show ?thesis by (simp add: a b)
qed

lemma py_int_digits:
  assumes "ds \<noteq> []" and "list_all is_digit ds" and "length ds \<le> 4300"
  shows "py_int ds = Some (int (decimal_value ds))"
proof -
  have h: "is_digit (hd ds)" using assms(1,2) by (cases ds) auto
  have l: "is_digit (last ds)" using assms(1,2) by (auto simp: list_all_iff)
  have s: "rev (dropWhile is_int_space (rev (dropWhile is_int_space ds))) = ds"
    using strip_unchanged [OF assms(1)] digit_not_space(1) h l by blast
  obtain d rest where ds: "ds = d # rest" using assms(1) by (cases ds) auto
  have f: "filter is_digit ds = ds" using assms(2) by (simp add: list_all_iff)
  have n: "\<not> length (filter is_digit (d # rest)) > int_max_str_digits"
    using f assms(3) unfolding ds int_max_str_digits_def by simp
  have d: "d \<noteq> CHR ''-''" "d \<noteq> CHR ''+''"
    using h ds digit_not_mark by auto
  have "py_int (d # rest) = map_option int (py_nat (d # rest))"
    using s n d unfolding ds py_int_def by simp
  then show ?thesis using py_nat_digits [OF assms(1,2)] unfolding ds by simp
qed

lemma nth_opt_simps:
  "nth_opt (x # xs) 0 = Some x" "nth_opt [x] (Suc 0) = None"
  "nth_opt (x # y # ys) (Suc 0) = Some y"
  by (simp_all add: nth_opt_def)

lemma timestamp_fields_digits:
  assumes "mm \<noteq> []" "list_all is_digit mm" "length mm \<le> 4300"
    and "ss \<noteq> []" "list_all is_digit ss" "length ss \<le> 4300"
    and "cc \<noteq> []" "list_all is_digit cc" "length cc \<le> 4300"
  shows "timestamp_fields (mm @ CHR '':'' # ss @ CHR ''.'' # cc)
          = Some (int (decimal_value mm), int (decimal_value ss), int (decimal_value cc))"
    and "timestamp_fields (mm @ CHR '':'' # ss)
          = Some (int (decimal_value mm), int (decimal_value ss), 0)"
proof -
  have c1: "CHR '':'' \<notin> set mm" using digits_no_mark(1) [OF assms(2)] .
  have c2: "CHR '':'' \<notin> set (ss @ CHR ''.'' # cc)"
    using digits_no_mark(1) [OF assms(5)] digits_no_mark(1) [OF assms(8)] by simp
  have c3: "CHR '':'' \<notin> set ss" using digits_no_mark(1) [OF assms(5)] .
  have d1: "CHR ''.'' \<notin> set ss" using digits_no_mark(2) [OF assms(5)] .
  have d2: "CHR ''.'' \<notin> set cc" using digits_no_mark(2) [OF assms(8)] .
  have p: "py_split CHR '':'' (mm @ CHR '':'' # ss @ CHR ''.'' # cc)
            = [mm, ss @ CHR ''.'' # cc]"
    using py_split_append [OF c1] py_split_absent [OF c2] by simp
  have q: "py_split CHR ''.'' (ss @ CHR ''.'' # cc) = [ss, cc]"
    using py_split_append [OF d1] py_split_absent [OF d2] by simp
  have p': "py_split CHR '':'' (mm @ CHR '':'' # ss) = [mm, ss]"
    using py_split_append [OF c1] py_split_absent [OF c3] by simp
  have q': "py_split CHR ''.'' ss = [ss]"
    using py_split_absent [OF d1] .
  note i = py_int_digits [OF assms(1,2,3)] py_int_digits [OF assms(4,5,6)]
    py_int_digits [OF assms(7,8,9)]
  show "timestamp_fields (mm @ CHR '':'' # ss @ CHR ''.'' # cc)
          = Some (int (decimal_value mm), int (decimal_value ss), int (decimal_value cc))"
    unfolding timestamp_fields_def Let_def p by (simp add: nth_opt_simps q i)
  show "timestamp_fields (mm @ CHR '':'' # ss)
          = Some (int (decimal_value mm), int (decimal_value ss), 0)"
    unfolding timestamp_fields_def Let_def p' by (simp add: nth_opt_simps q' i)
qed

subsection \<open>The loaded list\<close>

lemma map_filter_mem:
  "l \<in> set (List.map_filter f xs) \<Longrightarrow> \<exists>x \<in> set xs. f x = Some l"
  by (auto simp: List.map_filter_def)

lemma load_lyrics_Some:
  "snd (load_lyrics (Some content))
     = sort_key lyric_time (List.map_filter parse_line (readlines content))"
  by (simp add: load_lyrics_def Let_def)

lemma load_lyrics_mem:
  assumes "l \<in> set (snd (load_lyrics file))"
  shows "\<exists>raw. parse_line raw = Some l"
proof (cases "file")
  case None
  with assms show ?thesis by (simp add: load_lyrics_def)
next
  case (Some content)
  with assms have "l \<in> set (List.map_filter parse_line (readlines content))"
    by (simp add: load_lyrics_Some)
  then show ?thesis using map_filter_mem by fastforce
qed

lemma parse_line_fields:
  assumes "parse_line raw = Some l"
  shows "\<exists>m s c. timestamp_fields (lyric_timestamp l) = Some (m, s, c)
           \<and> seconds_total (m, s, c) = Some (lyric_time l)"
proof -
  have "Option.bind (timestamp_fields (lyric_timestamp l)) seconds_total
          = Some (lyric_time l)"
    using parse_line_Some(5) [OF assms] by (simp add: timestamp_seconds_def)
  then show ?thesis
    by (cases "timestamp_fields (lyric_timestamp l)") auto
qed

subsection \<open>One line of lyrics\<close>






section \<open>One line per pass\<close>

text \<open>
  C1. On one pass of the loop the cursor either stays where it is, with the history
  unchanged, or moves by exactly one line, whose text is the one entry appended to the
  history; so at most one line surfaces per pass. In particular, with two lines whose
  times have both elapsed at the first clock reading, the first pass surfaces only the
  first line and the second line surfaces on the following pass.
\<close>

theorem at_most_one_advance_per_tick:
  "((current_line_index (fst (tick lyrics t s)) = current_line_index s
       \<and> displayed_lines (fst (tick lyrics t s)) = displayed_lines s)
    \<or> (current_line_index (fst (tick lyrics t s)) = current_line_index s + 1
       \<and> displayed_lines (fst (tick lyrics t s))
           = displayed_lines s @ [lyric_text (lyrics ! current_line_index s)]))
   \<and> (lyric_time l1 \<le> lyric_time l2 \<and> lyric_time l2 \<le> t \<and> t \<le> t' \<longrightarrow>
        displayed_lines (fst (tick [l1, l2] t initial_state)) = [lyric_text l1]
      \<and> current_line_index (fst (tick [l1, l2] t initial_state)) = 1
      \<and> displayed_lines (fst (tick [l1, l2] t' (fst (tick [l1, l2] t initial_state))))
          = [lyric_text l1, lyric_text l2])"
proof -
  have one: "(current_line_index (fst (tick lyrics t s)) = current_line_index s
       \<and> displayed_lines (fst (tick lyrics t s)) = displayed_lines s)
    \<or> (current_line_index (fst (tick lyrics t s)) = current_line_index s + 1
       \<and> displayed_lines (fst (tick lyrics t s))
           = displayed_lines s @ [lyric_text (lyrics ! current_line_index s)])"
    by (simp add: tick_def advance_def Let_def split: sum.splits)
  have two: "displayed_lines (fst (tick [l1, l2] t initial_state)) = [lyric_text l1]
      \<and> current_line_index (fst (tick [l1, l2] t initial_state)) = 1
      \<and> displayed_lines (fst (tick [l1, l2] t' (fst (tick [l1, l2] t initial_state))))
          = [lyric_text l1, lyric_text l2]"
    if "lyric_time l1 \<le> lyric_time l2" "lyric_time l2 \<le> t" "t \<le> t'"
    using that
    by (simp add: tick_def advance_def should_advance_def initial_state_def Let_def
        split: sum.splits)
  from one two show ?thesis by blast
qed

theorem at_most_one_advance_per_tick_witness:
  "displayed_lines
     (fst (tick [\<lparr>lyric_time = 1, lyric_text = ''a'', lyric_timestamp = ''00:01''\<rparr>,
                 \<lparr>lyric_time = 1.01, lyric_text = ''b'', lyric_timestamp = ''00:01.01''\<rparr>]
             2 initial_state)) = [''a'']
   \<and> displayed_lines
     (fst (tick [\<lparr>lyric_time = 1, lyric_text = ''a'', lyric_timestamp = ''00:01''\<rparr>,
                 \<lparr>lyric_time = 1.01, lyric_text = ''b'', lyric_timestamp = ''00:01.01''\<rparr>]
             2.05
             (fst (tick [\<lparr>lyric_time = 1, lyric_text = ''a'', lyric_timestamp = ''00:01''\<rparr>,
                 \<lparr>lyric_time = 1.01, lyric_text = ''b'', lyric_timestamp = ''00:01.01''\<rparr>]
             2 initial_state)))) = [''a'', ''b'']"
  using at_most_one_advance_per_tick
    [of _ 2 _ "\<lparr>lyric_time = 1, lyric_text = ''a'', lyric_timestamp = ''00:01''\<rparr>"
        "\<lparr>lyric_time = 1.01, lyric_text = ''b'', lyric_timestamp = ''00:01.01''\<rparr>" "2.05"]
  by simp

section \<open>The three-line scenario\<close>

text \<open>
  C2, as stated: the run over the three lines a, b, c with the clock reading 0, 1, 2, 3, 4
  while the mixer is busy would render four screens and be finished at the reading 4.
  It is not so: at the reading 4 the mixer is still busy, the loop is still running and
  renders a fifth screen.
\<close>

theorem three_line_scenario_counterexample:
  "phase (play (snd (load_lyrics (Some abc_text))) 0
            [playing 0, playing 1, playing 2, playing 3, playing 4]) = Running
   \<and> length (frames (play (snd (load_lyrics (Some abc_text))) 0
            [playing 0, playing 1, playing 2, playing 3, playing 4])) = 5"
  by code_simp

text \<open>
  C2, amended: the run renders a at 0, b at 1, a refresh without a new line at 2, c at 3
  and a second refresh without a new line at 4, and finishes on the following pass, when
  the mixer is no longer busy, with 3 of 3 lines shown.
\<close>

theorem three_line_scenario:
  "play (snd (load_lyrics (Some abc_text))) 0
     [playing 0, playing 1, playing 2, playing 3, playing 4, stopped 5]
   = \<lparr>phase = Finished, audio_played = True,
      frames =
        [\<lparr>frame_time = 0, prev_lines = [], current_lyric_text = Some ''a'',
            highlighted = True, coming_up = Some (1, ''b''), progress = 0,
            lines_shown = 1, lines_total = 3\<rparr>,
         \<lparr>frame_time = 1, prev_lines = [''a''],
            current_lyric_text = Some ''b'', highlighted = True,
            coming_up = Some (2, ''c''), progress = 1 / 13, lines_shown = 2,
            lines_total = 3\<rparr>,
         \<lparr>frame_time = 2, prev_lines = [''a'', ''b''],
            current_lyric_text = Some ''b'', highlighted = False,
            coming_up = Some (1, ''c''), progress = 2 / 13, lines_shown = 2,
            lines_total = 3\<rparr>,
         \<lparr>frame_time = 3, prev_lines = [''a'', ''b''],
            current_lyric_text = Some ''c'', highlighted = True,
            coming_up = None, progress = 3 / 13, lines_shown = 3,
            lines_total = 3\<rparr>,
         \<lparr>frame_time = 4, prev_lines = [''a'', ''b'', ''c''],
            current_lyric_text = Some ''c'', highlighted = False,
            coming_up = None, progress = 4 / 13, lines_shown = 3,
            lines_total = 3\<rparr>],
      cursor =
        \<lparr>displayed_lines = [''a'', ''b'', ''c''], current_line_index = 3,
           last_update_time = 4\<rparr>\<rparr>"
  by code_simp

section \<open>The dimmed earlier lines\<close>

text \<open>
  C8. On every screen the loop renders, the dimmed earlier lines are at most three; on a
  screen rendered because a line was just surfaced they are the last three lines of the
  history without its newest entry, and that newest entry is the current line; on a
  periodic refresh they are the last three lines of the whole history, the current line
  among them.
\<close>

theorem previous_lines_rule:
  assumes "tick lyrics t s = (s', Emit f)"
  shows "length (prev_lines f) \<le> 3
     \<and> highlighted f = should_advance lyrics t s
     \<and> prev_lines f = (if highlighted f then last_n 3 (butlast (displayed_lines s'))
                       else last_n 3 (displayed_lines s'))
     \<and> displayed_lines s' = (if highlighted f
          then displayed_lines s @ [lyric_text (lyrics ! current_line_index s)]
          else displayed_lines s)
     \<and> current_lyric_text f
         = (if displayed_lines s' = [] then None else Some (last (displayed_lines s')))"
proof -
  note r = tick_emit(2) [OF assms]
  have h: "highlighted f = should_advance lyrics t s"
    using render_fields(1) [OF r] .
  have p: "prev_lines f = (if highlighted f then last_n 3 (butlast (displayed_lines s'))
                       else last_n 3 (displayed_lines s'))"
    using render_prev_lines [OF r] h by simp
  have d: "displayed_lines s' = (if highlighted f
          then displayed_lines s @ [lyric_text (lyrics ! current_line_index s)]
          else displayed_lines s)"
    using tick_emit(1) [OF assms] h by (simp add: advance_def)
  have l: "length (prev_lines f) \<le> 3"
    using p last_n_le [of 3] by (simp split: if_splits)
  show ?thesis using h p d l render_fields(2) [OF r] by simp
qed

theorem previous_lines_rule_witness:
  "tick abc_lyrics 2
     \<lparr>displayed_lines = [''a'', ''b''], current_line_index = 2, last_update_time = 1\<rparr>
   = (\<lparr>displayed_lines = [''a'', ''b''], current_line_index = 2, last_update_time = 2\<rparr>,
      Emit \<lparr>frame_time = 2, prev_lines = [''a'', ''b''],
            current_lyric_text = Some ''b'', highlighted = False,
            coming_up = Some (1, ''c''), progress = 2 / 13, lines_shown = 2,
            lines_total = 3\<rparr>)
   \<and> last_n 3 [''a'', ''b''] = [''a'', ''b'']"
proof -
  have h: "tick abc_lyrics 2
     \<lparr>displayed_lines = [''a'', ''b''], current_line_index = 2, last_update_time = 1\<rparr>
   = (\<lparr>displayed_lines = [''a'', ''b''], current_line_index = 2, last_update_time = 2\<rparr>,
      Emit \<lparr>frame_time = 2, prev_lines = [''a'', ''b''],
            current_lyric_text = Some ''b'', highlighted = False,
            coming_up = Some (1, ''c''), progress = 2 / 13, lines_shown = 2,
            lines_total = 3\<rparr>)"
    by code_simp
  from previous_lines_rule [OF h] h show ?thesis by simp
qed

section \<open>Which lines are kept\<close>




section \<open>The time of a timestamp\<close>

lemma timestamp_fields_no_centiseconds:
  assumes "timestamp_fields ts = Some (m, s, c)"
    and "nth_opt (py_split CHR '':'' ts) 1 = Some p1"
    and "CHR ''.'' \<notin> set p1"
  shows "c = 0"
proof -
  have l: "\<not> Suc 0 < length (py_split CHR ''.'' p1)"
    using py_split_absent [OF assms(3)] by simp
  show ?thesis
    using assms(1)
    unfolding timestamp_fields_def Let_def assms(2)
    by (simp add: l split: option.splits)
qed

text \<open>
  C4. The time of every kept line is minutes * 60 + seconds + centiseconds / 100, where
  the three numbers are the fields \<open>int()\<close> reads from its timestamp, and the third is 0
  when the part after the colon has no dot. For a timestamp written with decimal digits,
  \<open>MM:SS.CC\<close> or \<open>MM:SS\<close>, the fields are the numbers the digits denote. The adjuster's
  \<open>parse_timestamp\<close> computes the same time. \<open>[01:02.50]hello\<close> has the time 62.5 and
  \<open>[00:00]hi\<close> the time 0.
\<close>

theorem timestamp_semantics:
  "(parse_line raw = Some l \<longrightarrow>
      (\<exists>minutes seconds centiseconds.
          timestamp_fields (lyric_timestamp l) = Some (minutes, seconds, centiseconds)
        \<and> lyric_time l
            = of_int minutes * 60 + of_int seconds + of_int centiseconds / 100
        \<and> (\<forall>p1. nth_opt (py_split CHR '':'' (lyric_timestamp l)) 1 = Some p1
                  \<and> CHR ''.'' \<notin> set p1 \<longrightarrow> centiseconds = 0)))
   \<and> (mm \<noteq> [] \<and> list_all is_digit mm \<and> length mm \<le> 4300
      \<and> ss \<noteq> [] \<and> list_all is_digit ss \<and> length ss \<le> 4300
      \<and> cc \<noteq> [] \<and> list_all is_digit cc \<and> length cc \<le> 4300 \<longrightarrow>
        timestamp_seconds (mm @ CHR '':'' # ss @ CHR ''.'' # cc)
          = seconds_total
              (int (decimal_value mm), int (decimal_value ss), int (decimal_value cc))
      \<and> timestamp_seconds (mm @ CHR '':'' # ss)
          = seconds_total (int (decimal_value mm), int (decimal_value ss), 0))
   \<and> (seconds_total (m, s, c) = Some x \<longrightarrow>
        x = of_int m * 60 + of_int s + of_int c / 100)
   \<and> parse_timestamp ts = timestamp_seconds ts
   \<and> map_option lyric_time (parse_line ''[01:02.50]hello'') = Some 62.5
   \<and> map_option lyric_time (parse_line ''[00:00]hi'') = Some 0"
proof -
  have kept: "\<exists>minutes seconds centiseconds.
          timestamp_fields (lyric_timestamp l) = Some (minutes, seconds, centiseconds)
        \<and> lyric_time l
            = of_int minutes * 60 + of_int seconds + of_int centiseconds / 100
        \<and> (\<forall>p1. nth_opt (py_split CHR '':'' (lyric_timestamp l)) 1 = Some p1
                  \<and> CHR ''.'' \<notin> set p1 \<longrightarrow> centiseconds = 0)"
    if p: "parse_line raw = Some l"
  proof -
    obtain mi se ce where f: "timestamp_fields (lyric_timestamp l) = Some (mi, se, ce)"
      and t: "seconds_total (mi, se, ce) = Some (lyric_time l)"
      using parse_line_fields [OF p] by blast
    have v: "lyric_time l = of_int mi * 60 + of_int se + of_int ce / 100"
      using seconds_total_Some [OF t] by simp
    have z: "\<forall>p1. nth_opt (py_split CHR '':'' (lyric_timestamp l)) 1 = Some p1
                  \<and> CHR ''.'' \<notin> set p1 \<longrightarrow> ce = 0"
      using timestamp_fields_no_centiseconds [OF f] by blast
    from f v z show ?thesis by blast
  qed
  have digits: "timestamp_seconds (mm @ CHR '':'' # ss @ CHR ''.'' # cc)
          = seconds_total
              (int (decimal_value mm), int (decimal_value ss), int (decimal_value cc))
      \<and> timestamp_seconds (mm @ CHR '':'' # ss)
          = seconds_total (int (decimal_value mm), int (decimal_value ss), 0)"
    if "mm \<noteq> []" "list_all is_digit mm" "length mm \<le> 4300"
      "ss \<noteq> []" "list_all is_digit ss" "length ss \<le> 4300"
      "cc \<noteq> []" "list_all is_digit cc" "length cc \<le> 4300"
    using timestamp_fields_digits [OF that] by (simp add: timestamp_seconds_def)
  have formula: "x = of_int m * 60 + of_int s + of_int c / 100"
    if "seconds_total (m, s, c) = Some x"
    using seconds_total_Some [OF that] by simp
  have e1: "map_option lyric_time (parse_line ''[01:02.50]hello'') = Some 62.5"
    by code_simp
  have e2: "map_option lyric_time (parse_line ''[00:00]hi'') = Some 0"
    by code_simp
  from kept digits formula parse_timestamp_eq [of ts] e1 e2 show ?thesis by blast
qed

theorem timestamp_semantics_witness:
  "parse_line ''[01:02.50]hello''
     = Some \<lparr>lyric_time = 62.5, lyric_text = ''hello'', lyric_timestamp = ''01:02.50''\<rparr>
   \<and> timestamp_fields ''01:02.50'' = Some (1, 2, 50)
   \<and> timestamp_seconds ''01:02.50'' = seconds_total (1, 2, 50)
   \<and> seconds_total (1, 2, 50) = Some 62.5"
proof -
  have p: "parse_line ''[01:02.50]hello''
     = Some \<lparr>lyric_time = 62.5, lyric_text = ''hello'', lyric_timestamp = ''01:02.50''\<rparr>"
    by code_simp
  have f: "timestamp_fields ''01:02.50'' = Some (1, 2, 50)"
    by code_simp
  have d: "list_all is_digit ''01''" "list_all is_digit ''02''" "list_all is_digit ''50''"
    by code_simp+
  have v: "decimal_value ''01'' = 1" "decimal_value ''02'' = 2" "decimal_value ''50'' = 50"
    by code_simp+
  have s: "seconds_total (1, 2, 50) = Some 62.5"
    by code_simp
  from timestamp_semantics
         [of "''[01:02.50]hello''"
             "\<lparr>lyric_time = 62.5, lyric_text = ''hello'', lyric_timestamp = ''01:02.50''\<rparr>"
             "''01''" "''02''" "''50''" 1 2 50 "62.5" "''01:02.50''"]
       p f d v s
  show ?thesis by simp
qed

section \<open>The order of the loaded lines\<close>

text \<open>
  C5. For every text the loaded lines are in ascending order of time, and the lines of
  one and the same time stand in the order in which the text has them: the list is the
  stable sort of the parsed lines, with the same entries. The playback loop only reads
  the list (it is a parameter of \<open>tick\<close> and of \<open>karaoke_loop\<close>, never a result), so the
  order stays as loaded.
\<close>

theorem sort_invariant:
  "sorted (map lyric_time (snd (load_lyrics (Some content))))
   \<and> filter (\<lambda>l. lyric_time l = t) (snd (load_lyrics (Some content)))
       = filter (\<lambda>l. lyric_time l = t) (List.map_filter parse_line (readlines content))
   \<and> set (snd (load_lyrics (Some content)))
       = set (List.map_filter parse_line (readlines content))
   \<and> length (snd (load_lyrics (Some content)))
       = length (List.map_filter parse_line (readlines content))"
  unfolding load_lyrics_Some
  by (simp add: sort_key_stable)

theorem sort_invariant_witness:
  "map lyric_text (snd (load_lyrics (Some ''[00:02]b\<newline>[00:01]a\<newline>[00:02]c'')))
     = [''a'', ''b'', ''c'']
   \<and> sorted (map lyric_time
        (snd (load_lyrics (Some ''[00:02]b\<newline>[00:01]a\<newline>[00:02]c''))))"
proof -
  have e: "map lyric_text (snd (load_lyrics (Some ''[00:02]b\<newline>[00:01]a\<newline>[00:02]c'')))
     = [''a'', ''b'', ''c'']"
    by code_simp
  from sort_invariant [of "''[00:02]b\<newline>[00:01]a\<newline>[00:02]c''" 2] e
  show ?thesis by simp
qed

section \<open>The sign of the loaded times\<close>

text \<open>
  C6, as stated: no loaded line has a negative time, the fields being read as unsigned
  integers. It is not so: \<open>int()\<close> accepts a sign, and the line \<open>[-1:00]hi\<close> is
  loaded with the time -60.
\<close>

theorem non_negative_times_counterexample:
  "map lyric_time (snd (load_lyrics (Some ''[-1:00]hi''))) = [- 60]
   \<and> map lyric_text (snd (load_lyrics (Some ''[-1:00]hi''))) = [''hi'']"
  by code_simp

text \<open>
  C6, amended: every loaded line whose timestamp contains no minus sign has a
  non-negative time.
\<close>

theorem non_negative_times:
  assumes "l \<in> set (snd (load_lyrics file))"
    and "CHR ''-'' \<notin> set (lyric_timestamp l)"
  shows "0 \<le> lyric_time l"
proof -
  obtain raw where raw: "parse_line raw = Some l"
    using load_lyrics_mem [OF assms(1)] by blast
  obtain m s c where f: "timestamp_fields (lyric_timestamp l) = Some (m, s, c)"
    and t: "seconds_total (m, s, c) = Some (lyric_time l)"
    using parse_line_fields [OF raw] by blast
  have "0 \<le> m \<and> 0 \<le> s \<and> 0 \<le> c"
    using timestamp_fields_nonneg [OF f assms(2)] .
  then show ?thesis using seconds_total_nonneg [OF t] by simp
qed

theorem non_negative_times_witness:
  "snd (load_lyrics (Some ''[01:02.50]hello''))
     = [\<lparr>lyric_time = 62.5, lyric_text = ''hello'', lyric_timestamp = ''01:02.50''\<rparr>]
   \<and> (0 :: real) \<le> 62.5"
proof -
  have e: "snd (load_lyrics (Some ''[01:02.50]hello''))
     = [\<lparr>lyric_time = 62.5, lyric_text = ''hello'', lyric_timestamp = ''01:02.50''\<rparr>]"
    by code_simp
  have m: "\<lparr>lyric_time = 62.5, lyric_text = ''hello'', lyric_timestamp = ''01:02.50''\<rparr>
            \<in> set (snd (load_lyrics (Some ''[01:02.50]hello'')))"
    unfolding e by simp
  have n: "CHR ''-'' \<notin> set (lyric_timestamp
             \<lparr>lyric_time = 62.5, lyric_text = ''hello'', lyric_timestamp = ''01:02.50''\<rparr>)"
    by simp
  from non_negative_times [OF m n] e show ?thesis by simp
qed

section \<open>Playing without lyrics\<close>


section \<open>Negative times in the adjuster\<close>

text \<open>
  C10. For every negative number of seconds \<open>format_timestamp\<close> returns 00:00.00, so the
  adjuster rewrites every timed line whose shifted time is below zero with the timestamp
  00:00.00; lines that were apart before the shift then carry the same timestamp.
\<close>

theorem format_timestamp_clamps_negative:
  "(s < 0 \<longrightarrow> format_timestamp s = ''00:00.00'')
   \<and> (timestamp_and_text line = Some (t, text) \<and> t + offset_seconds < 0 \<longrightarrow>
        adjust_line offset_seconds line = ''[00:00.00]'' @ text)
   \<and> adjust_lrc_timing (Some ''[00:00.50]a\<newline>[00:01.00]b'') (- 2)
       = Some ''[00:00.00]a\<newline>[00:00.00]b''"
proof -
  have f: "format_timestamp x = ''00:00.00''" if "x < 0" for x
    using that
    by (simp add: format_timestamp_def py_trunc_def py_floordiv_def py_mod_def format_02d_0)
  have l: "adjust_line offset_seconds line = ''[00:00.00]'' @ text"
    if "timestamp_and_text line = Some (t, text)" "t + offset_seconds < 0"
    using that f by (simp add: adjust_line_def)
  have e: "adjust_lrc_timing (Some ''[00:00.50]a\<newline>[00:01.00]b'') (- 2)
       = Some ''[00:00.00]a\<newline>[00:00.00]b''"
    by code_simp
  from f l e show ?thesis by blast
qed

theorem format_timestamp_clamps_negative_witness:
  "format_timestamp (- 3) = ''00:00.00''
   \<and> adjust_line (- 2) ''[00:01.00]x'' = ''[00:00.00]x''"
proof -
  have h: "timestamp_and_text ''[00:01.00]x'' = Some (1, ''x'')"
    by code_simp
  from format_timestamp_clamps_negative [of "- 3" "''[00:01.00]x''" 1 "''x''" "- 2"] h
  show ?thesis by simp
qed

end
